theory Spec2Isabelle
  imports Main
begin

section \<open>Values crossing the client's boundary\<close>

text \<open>
  \<^verbatim>\<open>JSON.parse\<close> returns an arbitrary JSON value; the TypeScript annotation
  \<^verbatim>\<open>JwksResponse\<close> is not checked at run time. An object is the list of its own
  properties (names are unique in a parsed object). The numeric value of a number is
  never inspected by the client beyond its truthiness.
\<close>

datatype json =
    JNull
  | JBool bool
  | JNum int
  | JStr string
  | JArr "json list"
  | JObj "(string \<times> json) list"

type_synonym Jwk = json

text \<open>
  \<^verbatim>\<open>new ClientError(message, code, context?)\<close>. The third argument is where
  \<^verbatim>\<open>UserInfoClient\<close> passes \<^verbatim>\<open>{ originalError: error }\<close>; \<^verbatim>\<open>JwksClient\<close>
  never passes it. A thrown value is either a \<^verbatim>\<open>ClientError\<close> or anything else
  (a \<^verbatim>\<open>TypeError\<close>, a \<^verbatim>\<open>SyntaxError\<close>, a transport error), kept by its name.
\<close>

datatype thrown =
    ClientError (message: string) (code: string) (originalError: "thrown option")
  | OtherError string

fun instanceof_ClientError :: "thrown \<Rightarrow> bool" where
  "instanceof_ClientError (ClientError _ _ _) = True"
| "instanceof_ClientError (OtherError _) = False"

text \<open>
  Reading a property \<^verbatim>\<open>v.p\<close>. On \<^verbatim>\<open>null\<close> JavaScript throws a
  \<^verbatim>\<open>TypeError\<close>; on an object the own property or \<^verbatim>\<open>undefined\<close>; on an
  array the name \<^verbatim>\<open>keys\<close> is the inherited method \<^verbatim>\<open>Array.prototype.keys\<close>
  (a function); on the other primitives neither \<^verbatim>\<open>keys\<close> nor \<^verbatim>\<open>kid\<close>, the only
  names this client reads, exists.
\<close>

datatype property = Undefined | Method | Own json

fun get_property :: "json \<Rightarrow> string \<Rightarrow> thrown + property" where
  "get_property JNull p = Inl (OtherError ''TypeError'')"
| "get_property (JObj fs) p = Inr (case map_of fs p of None \<Rightarrow> Undefined | Some v \<Rightarrow> Own v)"
| "get_property (JArr xs) p = Inr (if p = ''keys'' then Method else Undefined)"
| "get_property (JBool b) p = Inr Undefined"
| "get_property (JNum n) p = Inr Undefined"
| "get_property (JStr s) p = Inr Undefined"

fun truthy :: "property \<Rightarrow> bool" where
  "truthy Undefined = False"
| "truthy Method = True"
| "truthy (Own JNull) = False"
| "truthy (Own (JBool b)) = b"
| "truthy (Own (JNum n)) = (n \<noteq> 0)"
| "truthy (Own (JStr s)) = (s \<noteq> [])"
| "truthy (Own (JArr xs)) = True"
| "truthy (Own (JObj fs)) = True"

fun Array_isArray :: "property \<Rightarrow> bool" where
  "Array_isArray (Own (JArr xs)) = True"
| "Array_isArray _ = False"

section \<open>Collaborators\<close>

text \<open>
  \<^verbatim>\<open>ICache<T>\<close> is injected through the constructor, so the client is modelled over
  any implementation: a cache state \<open>'c\<close> with the two operations the clients call.
  Both read the wall clock (\<^verbatim>\<open>Date.now()\<close>), passed as their second argument.
\<close>

record ('c, 'v) ICache =
  cache_get :: "'c \<Rightarrow> int \<Rightarrow> string \<Rightarrow> 'v option"
  cache_set :: "'c \<Rightarrow> int \<Rightarrow> string \<Rightarrow> 'v \<Rightarrow> int \<Rightarrow> 'c"

text \<open>
  Modelled from the spec: the default \<^verbatim>\<open>InMemoryCache\<close> is not part of the sources.
  The spec's contract: a \<^verbatim>\<open>CacheEntry<T>\<close> is a value plus an absolute expiry
  instant, \<^verbatim>\<open>set(key, value, ttlMillis)\<close> stores one, and a lookup past expiry is a
  miss.
\<close>

type_synonym 'v mem_cache = "string \<Rightarrow> ('v \<times> int) option"

definition InMemoryCache :: "('v mem_cache, 'v) ICache" where
  "InMemoryCache =
     \<lparr> cache_get = (\<lambda>c now k.
         case c k of
           None \<Rightarrow> None
         | Some (v, expiry) \<Rightarrow> if expiry < now then None else Some v),
       cache_set = (\<lambda>c now k v ttl. c(k \<mapsto> (v, now + ttl))) \<rparr>"

text \<open>
  \<^verbatim>\<open>IHttpClient.get(url)\<close> returns a promise that resolves to the response body or
  rejects. A reply also says how long the request took and how long the awaiting caller
  waited afterwards before it resumed.
\<close>

datatype http_result = Resolves string | Rejects thrown

record reply =
  result :: http_result
  latency :: nat
  resume :: nat

text \<open>
  What a client is constructed with, and what it runs against: the transport answers the
  \<open>n\<close>-th request to a URL, and \<^verbatim>\<open>JSON.parse\<close> is the platform's (\<open>None\<close> where
  it throws a \<^verbatim>\<open>SyntaxError\<close>).
\<close>

record 'c deps =
  jwksUri :: string
  cacheTtl :: int
  cache :: "('c, Jwk list) ICache"
  httpClient_get :: "string \<Rightarrow> nat \<Rightarrow> reply"
  JSON_parse :: "string \<Rightarrow> json option"

section \<open>JwksClient\<close>

text \<open>
  The mutable state a call sees: the cache's state, the clock, the in-flight marker
  \<^verbatim>\<open>fetchingJWKS\<close> (the pending promise, named by the number of its request), and
  two observations: how many requests were issued so far, and which of them have not
  settled yet. Logger calls are omitted: the logger never influences control flow.
\<close>

record 'c state =
  store :: 'c
  clock :: int
  fetchingJWKS :: "nat option"
  started :: nat
  pending :: "nat list"

definition cacheKey :: string where
  "cacheKey = ''jwks''"

text \<open>\<^verbatim>\<open>validateJwks\<close>: \<^verbatim>\<open>!jwks.keys || !Array.isArray(jwks.keys)\<close>.\<close>

definition validateJwks :: "json \<Rightarrow> thrown + unit" where
  "validateJwks jwks =
     (case get_property jwks ''keys'' of
        Inl e \<Rightarrow> Inl e
      | Inr ks \<Rightarrow>
          if \<not> truthy ks \<or> \<not> Array_isArray ks
          then Inl (ClientError ''JWKS response does not contain keys'' ''JWKS_INVALID'' None)
          else Inr ())"

text \<open>
  \<^verbatim>\<open>jwks.keys\<close> as it is read once \<^verbatim>\<open>validateJwks\<close> has passed; it is an array
  there, and the last case is never reached (lemma \<open>validateJwks_passes\<close>).
\<close>

definition jwks_keys :: "json \<Rightarrow> Jwk list" where
  "jwks_keys jwks = (case get_property jwks ''keys'' of Inr (Own (JArr xs)) \<Rightarrow> xs | _ \<Rightarrow> [])"

text \<open>\<^verbatim>\<open>handleFetchError\<close>: a \<^verbatim>\<open>ClientError\<close> is rethrown, anything else is
  logged and replaced.\<close>

definition handleFetchError :: "thrown \<Rightarrow> thrown" where
  "handleFetchError error =
     (if instanceof_ClientError error then error
      else ClientError ''Failed to fetch JWKS'' ''JWKS_FETCH_ERROR'' None)"

text \<open>
  \<^verbatim>\<open>refreshCache\<close>, in two halves around its \<^verbatim>\<open>await\<close>: issuing the request, and
  everything after the transport has settled it.
\<close>

definition refreshCache_request :: "'c state \<Rightarrow> nat \<times> 'c state" where
  "refreshCache_request st =
     (started st, st\<lparr>started := Suc (started st), pending := pending st @ [started st]\<rparr>)"

definition refreshCache_body :: "'c deps \<Rightarrow> http_result \<Rightarrow> 'c state \<Rightarrow> (thrown + unit) \<times> 'c state" where
  "refreshCache_body D r st =
     (case r of
        Rejects e \<Rightarrow> (Inl e, st)
      | Resolves response \<Rightarrow>
          (case JSON_parse D response of
             None \<Rightarrow> (Inl (ClientError ''Invalid JWKS response format'' ''JWKS_PARSE_ERROR'' None), st)
           | Some jwks \<Rightarrow>
               (case validateJwks jwks of
                  Inl e \<Rightarrow> (Inl e, st)
                | Inr u \<Rightarrow>
                    (Inr (), st\<lparr>store := cache_set (cache D) (store st) (clock st) cacheKey
                                        (jwks_keys jwks) (cacheTtl D)\<rparr>))))"

definition refreshCache_settle :: "'c deps \<Rightarrow> nat \<Rightarrow> 'c state \<Rightarrow> (thrown + unit) \<times> 'c state" where
  "refreshCache_settle D p st =
     (let r = httpClient_get D (jwksUri D) p;
          st1 = st\<lparr>clock := clock st + int (latency r), pending := removeAll p (pending st)\<rparr>
      in case refreshCache_body D (result r) st1 of
           (Inl error, st2) \<Rightarrow> (Inl (handleFetchError error), st2)
         | (Inr u, st2) \<Rightarrow> (Inr u, st2))"

definition refreshCache :: "'c deps \<Rightarrow> 'c state \<Rightarrow> (thrown + unit) \<times> 'c state" where
  "refreshCache D st =
     (case refreshCache_request st of
        (p, st1) \<Rightarrow>
          (case refreshCache_settle D p st1 of
             (res, st2) \<Rightarrow>
               (res, st2\<lparr>clock := clock st2 + int (resume (httpClient_get D (jwksUri D) p))\<rparr>)))"

text \<open>
  \<^verbatim>\<open>ensureJWKS\<close>. The synchronous part installs the promise
  \<^verbatim>\<open>refreshCache().finally(...)\<close> when none is pending, and returns the pending one.
  That promise settles when the request does: the rest of \<^verbatim>\<open>refreshCache\<close> runs,
  then the \<^verbatim>\<open>finally\<close> callback clears the marker, on either outcome.
\<close>

definition ensureJWKS_trigger :: "'c state \<Rightarrow> nat \<times> 'c state" where
  "ensureJWKS_trigger st =
     (case fetchingJWKS st of
        None \<Rightarrow>
          (case refreshCache_request st of
             (p, st1) \<Rightarrow> (p, st1\<lparr>fetchingJWKS := Some p\<rparr>))
      | Some p \<Rightarrow> (p, st))"

definition ensureJWKS_finally :: "'c state \<Rightarrow> 'c state" where
  "ensureJWKS_finally st = st\<lparr>fetchingJWKS := None\<rparr>"

definition ensureJWKS_settle :: "'c deps \<Rightarrow> nat \<Rightarrow> 'c state \<Rightarrow> (thrown + unit) \<times> 'c state" where
  "ensureJWKS_settle D p st =
     (case refreshCache_settle D p st of
        (res, st1) \<Rightarrow> (res, ensureJWKS_finally st1))"

text \<open>
  \<^verbatim>\<open>await this.ensureJWKS()\<close> as one caller sees it when nothing else runs in
  between: trigger, wait for the pending promise to settle, resume. With the marker set
  at entry the caller joins the request in flight and issues none.
\<close>

definition ensureJWKS :: "'c deps \<Rightarrow> 'c state \<Rightarrow> (thrown + unit) \<times> 'c state" where
  "ensureJWKS D st =
     (case ensureJWKS_trigger st of
        (p, st1) \<Rightarrow>
          (case ensureJWKS_settle D p st1 of
             (res, st2) \<Rightarrow>
               (res, st2\<lparr>clock := clock st2 + int (resume (httpClient_get D (jwksUri D) p))\<rparr>)))"

text \<open>
  \<^verbatim>\<open>findKey\<close>: \<^verbatim>\<open>jwks.find((k) => k.kid === kid)\<close>. The callback throws on a
  \<^verbatim>\<open>null\<close> element; strict equality with the string \<^verbatim>\<open>kid\<close> holds for an own
  string property of the same characters only.
\<close>

fun findKey :: "Jwk list \<Rightarrow> string \<Rightarrow> thrown + Jwk option" where
  "findKey [] kid = Inr None"
| "findKey (k # ks) kid =
     (case get_property k ''kid'' of
        Inl e \<Rightarrow> Inl e
      | Inr v \<Rightarrow> if v = Own (JStr kid) then Inr (Some k) else findKey ks kid)"

text \<open>\<^verbatim>\<open>this.cache.get(this.cacheKey)\<close>.\<close>

definition cached :: "'c deps \<Rightarrow> 'c state \<Rightarrow> Jwk list option" where
  "cached D st = cache_get (cache D) (store st) (clock st) cacheKey"

text \<open>
  \<^verbatim>\<open>getKey\<close>, lines 93 to 106: the scan of the key set at hand, and on a miss the
  refresh and the second scan. After that refresh the cache is read without a check, so
  an absent set makes \<^verbatim>\<open>jwks.find\<close> throw a \<^verbatim>\<open>TypeError\<close>.
\<close>

definition getKey_scan :: "'c deps \<Rightarrow> string \<Rightarrow> Jwk list \<Rightarrow> 'c state \<Rightarrow> (thrown + Jwk) \<times> 'c state" where
  "getKey_scan D kid jwks st =
     (case findKey jwks kid of
        Inl e \<Rightarrow> (Inl e, st)
      | Inr (Some key) \<Rightarrow> (Inr key, st)
      | Inr None \<Rightarrow>
          (case ensureJWKS D st of
             (Inl e, st1) \<Rightarrow> (Inl e, st1)
           | (Inr u, st1) \<Rightarrow>
               (case cached D st1 of
                  None \<Rightarrow> (Inl (OtherError ''TypeError''), st1)
                | Some jwks' \<Rightarrow>
                    (case findKey jwks' kid of
                       Inl e \<Rightarrow> (Inl e, st1)
                     | Inr (Some key) \<Rightarrow> (Inr key, st1)
                     | Inr None \<Rightarrow>
                         (Inl (ClientError (''No matching key found for kid '' @ kid)
                                 ''JWKS_KEY_NOT_FOUND'' None), st1)))))"

text \<open>\<^verbatim>\<open>getKey\<close>, whole: the guard on \<^verbatim>\<open>kid\<close>, the first cache read, the refresh
  on an absent set, then the scan.\<close>

definition getKey :: "'c deps \<Rightarrow> string \<Rightarrow> 'c state \<Rightarrow> (thrown + Jwk) \<times> 'c state" where
  "getKey D kid st =
     (if kid = [] then (Inl (ClientError ''kid must be provided'' ''INVALID_KID'' None), st)
      else
        (case cached D st of
           Some jwks \<Rightarrow> getKey_scan D kid jwks st
         | None \<Rightarrow>
             (case ensureJWKS D st of
                (Inl e, st1) \<Rightarrow> (Inl e, st1)
              | (Inr u, st1) \<Rightarrow>
                  (case cached D st1 of
                     None \<Rightarrow>
                       (Inl (ClientError ''JWKS cache is empty after refresh''
                               ''JWKS_FETCH_ERROR'' None), st1)
                   | Some jwks \<Rightarrow> getKey_scan D kid jwks st1))))"

subsection \<open>Interleaved callers\<close>

text \<open>
  JavaScript runs each continuation to completion, so concurrent callers interleave at
  these points only: a caller reaches \<^verbatim>\<open>ensureJWKS\<close> (\<open>Trigger\<close>), the transport
  settles the request of the pending promise and the rest of \<^verbatim>\<open>refreshCache\<close> runs
  (\<open>Respond\<close>), and the \<^verbatim>\<open>finally\<close> callback of the settled promise runs
  (\<open>Finally\<close>). \<^verbatim>\<open>refreshCache\<close> is public as well: a caller may call it directly
  (\<open>Direct\<close>), which issues a request without reading or setting the marker, and the
  transport settles such a request \<open>p\<close> later (\<open>DirectRespond p\<close>). An event that is
  not enabled leaves the state as it is.
\<close>

datatype event = Trigger | Respond | Finally | Direct | DirectRespond nat

fun step :: "'c deps \<Rightarrow> event \<Rightarrow> 'c state \<Rightarrow> 'c state" where
  "step D Trigger st = snd (ensureJWKS_trigger st)"
| "step D Respond st =
     (case fetchingJWKS st of
        None \<Rightarrow> st
      | Some p \<Rightarrow> if p \<in> set (pending st) then snd (refreshCache_settle D p st) else st)"
| "step D Finally st =
     (case fetchingJWKS st of
        None \<Rightarrow> st
      | Some p \<Rightarrow> if p \<in> set (pending st) then st else ensureJWKS_finally st)"
| "step D Direct st = snd (refreshCache_request st)"
| "step D (DirectRespond p) st =
     (if p \<in> set (pending st) \<and> fetchingJWKS st \<noteq> Some p
      then snd (refreshCache_settle D p st) else st)"

fun run :: "'c deps \<Rightarrow> event list \<Rightarrow> 'c state \<Rightarrow> 'c state" where
  "run D [] st = st"
| "run D (e # es) st = run D es (step D e st)"

text \<open>The promise a caller that triggers now would await.\<close>

definition awaited :: "'c state \<Rightarrow> nat" where
  "awaited st = fst (ensureJWKS_trigger st)"

text \<open>A client as its constructor leaves it: no marker, nothing in flight.\<close>

definition constructed :: "'c state \<Rightarrow> bool" where
  "constructed st = (fetchingJWKS st = None \<and> pending st = [])"

text \<open>The invariant of the interleavings without a direct call: the requests in flight
  are none, or the one the marker names.\<close>

definition single_flight :: "'c state \<Rightarrow> bool" where
  "single_flight st = (pending st = [] \<or> (\<exists>p. pending st = [p] \<and> fetchingJWKS st = Some p))"

text \<open>An entry of a key set carries the key identifier \<open>kid\<close>.\<close>

definition has_kid :: "Jwk \<Rightarrow> string \<Rightarrow> bool" where
  "has_kid k kid = (get_property k ''kid'' = Inr (Own (JStr kid)))"

section \<open>DiscoveryClient\<close>

text \<open>
  Only the tests of \<^verbatim>\<open>DiscoveryClient\<close> are among the sources. The client below
  follows the spec's section 4.2; the cache key and the messages are the ones its tests
  expect.
\<close>

record 'c disc_deps =
  discoveryUrl :: string
  disc_cacheTtl :: int
  disc_cache :: "('c, json) ICache"
  disc_http_get :: "string \<Rightarrow> nat \<Rightarrow> reply"
  disc_JSON_parse :: "string \<Rightarrow> json option"

record 'c disc_state =
  disc_store :: 'c
  disc_clock :: int
  fetchingConfig :: "nat option"
  disc_started :: nat

definition disc_cacheKey :: string where
  "disc_cacheKey = ''discoveryConfig''"

text \<open>
  Modelled from the spec: the validation of a discovery document, absent from the
  sources. A field must be present and a non-empty string.
\<close>

definition nonempty_string_field :: "json \<Rightarrow> string \<Rightarrow> bool" where
  "nonempty_string_field cfg field =
     (case cfg of
        JObj fs \<Rightarrow> (case map_of fs field of Some (JStr s) \<Rightarrow> s \<noteq> [] | _ \<Rightarrow> False)
      | _ \<Rightarrow> False)"

text \<open>
  Modelled from the spec: the fetch of \<^verbatim>\<open>DiscoveryClient\<close>, absent from the sources.
  Fetch the discovery URL; a transport failure or a parse failure is a
  \<^verbatim>\<open>DISCOVERY_ERROR\<close> wrapping the cause; \<^verbatim>\<open>issuer\<close> and \<^verbatim>\<open>jwks_uri\<close> are
  validated, a failure is \<^verbatim>\<open>INVALID_DISCOVERY_CONFIG\<close> naming the field; only then is
  the document written to the cache with the configured TTL.
\<close>

definition fetchDiscoveryConfig :: "'c disc_deps \<Rightarrow> nat \<Rightarrow> 'c disc_state \<Rightarrow> (thrown + json) \<times> 'c disc_state" where
  "fetchDiscoveryConfig D p st =
     (let r = disc_http_get D (discoveryUrl D) p;
          st1 = st\<lparr>disc_clock := disc_clock st + int (latency r)\<rparr>
      in case result r of
           Rejects e \<Rightarrow>
             (Inl (ClientError ''Unable to fetch discovery configuration'' ''DISCOVERY_ERROR'' (Some e)), st1)
         | Resolves body \<Rightarrow>
             (case disc_JSON_parse D body of
                None \<Rightarrow>
                  (Inl (ClientError ''Unable to fetch discovery configuration'' ''DISCOVERY_ERROR''
                          (Some (OtherError ''SyntaxError''))), st1)
              | Some cfg \<Rightarrow>
                  if \<not> nonempty_string_field cfg ''issuer''
                  then (Inl (ClientError ''Invalid discovery configuration: Missing or invalid issuer.''
                               ''INVALID_DISCOVERY_CONFIG'' None), st1)
                  else if \<not> nonempty_string_field cfg ''jwks_uri''
                  then (Inl (ClientError ''Invalid discovery configuration: Missing or invalid jwks_uri.''
                               ''INVALID_DISCOVERY_CONFIG'' None), st1)
                  else (Inr cfg,
                        st1\<lparr>disc_store := cache_set (disc_cache D) (disc_store st1) (disc_clock st1)
                                               disc_cacheKey cfg (disc_cacheTtl D)\<rparr>)))"

text \<open>
  Modelled from the spec: the coalesced fetch of \<^verbatim>\<open>DiscoveryClient\<close>, absent from the
  sources. The first caller installs the pending operation and issues the request; a
  caller that finds one pending awaits it; the marker is cleared when it settles.
\<close>

definition coalescedFetch :: "'c disc_deps \<Rightarrow> 'c disc_state \<Rightarrow> (thrown + json) \<times> 'c disc_state" where
  "coalescedFetch D st =
     (let (p, st1) =
            (case fetchingConfig st of
               None \<Rightarrow> (disc_started st,
                         st\<lparr>disc_started := Suc (disc_started st), fetchingConfig := Some (disc_started st)\<rparr>)
             | Some p \<Rightarrow> (p, st))
      in case fetchDiscoveryConfig D p st1 of
           (res, st2) \<Rightarrow>
             (res, st2\<lparr>fetchingConfig := None,
                        disc_clock := disc_clock st2 + int (resume (disc_http_get D (discoveryUrl D) p))\<rparr>))"

text \<open>
  Modelled from the spec: \<^verbatim>\<open>DiscoveryClient.getDiscoveryConfig(forceRefresh)\<close>, absent
  from the sources. If not forcing and the cache holds a live entry, return it;
  otherwise fetch.
\<close>

definition getDiscoveryConfig :: "'c disc_deps \<Rightarrow> bool \<Rightarrow> 'c disc_state \<Rightarrow> (thrown + json) \<times> 'c disc_state" where
  "getDiscoveryConfig D forceRefresh st =
     (if forceRefresh then coalescedFetch D st
      else
        (case cache_get (disc_cache D) (disc_store st) (disc_clock st) disc_cacheKey of
           Some cfg \<Rightarrow> (Inr cfg, st)
         | None \<Rightarrow> coalescedFetch D st))"

section \<open>SignatureVerifier\<close>

text \<open>
  \<^verbatim>\<open>SignatureVerifier\<close> is exported by \<^verbatim>\<open>src/utils/index.ts\<close> and is not among the
  sources. The table from algorithm names to schemes, the family of a PEM key and the
  cryptographic primitive are left open.
\<close>

datatype family = RSA | EC

datatype scheme = RSA_PKCS1v15 | RSA_PSS | ECDSA

datatype digest = SHA256 | SHA384 | SHA512

fun scheme_family :: "scheme \<Rightarrow> family" where
  "scheme_family RSA_PKCS1v15 = RSA"
| "scheme_family RSA_PSS = RSA"
| "scheme_family ECDSA = EC"

record crypto =
  alg_table :: "string \<Rightarrow> (scheme \<times> digest) option"
  key_family :: "string \<Rightarrow> family option"
  primitive :: "scheme \<Rightarrow> digest \<Rightarrow> string \<Rightarrow> string \<Rightarrow> string \<Rightarrow> bool"

text \<open>
  Modelled from the spec: \<^verbatim>\<open>SignatureVerifier.verify\<close>, absent from the sources. Reject
  immediately if \<open>alg\<close> is \<^verbatim>\<open>none\<close> or not a member of \<open>allowedAlgs\<close>; map
  \<open>alg\<close> to a digest and a scheme consistent with the key's family, a mismatch failing
  closed; then perform the cryptographic verification. Byte strings are lists of
  characters.
\<close>

definition verify :: "crypto \<Rightarrow> string \<Rightarrow> string \<Rightarrow> string \<Rightarrow> string \<Rightarrow> string set \<Rightarrow> bool" where
  "verify K signingInput signature alg publicKeyPem allowedAlgs =
     (if alg = ''none'' \<or> alg \<notin> allowedAlgs then False
      else
        (case alg_table K alg of
           None \<Rightarrow> False
         | Some (s, d) \<Rightarrow>
             if key_family K publicKeyPem \<noteq> Some (scheme_family s) then False
             else primitive K s d publicKeyPem signingInput signature))"

section \<open>Sample clients\<close>

text \<open>
  Concrete collaborators for the examples: keys, a transport that gives the same reply
  to every request, and \<^verbatim>\<open>JSON.parse\<close> on the response bodies the examples use (any
  other body stands for text that is not JSON).
\<close>

definition rsa_key :: "string \<Rightarrow> string \<Rightarrow> Jwk" where
  "rsa_key kid n =
     JObj [(''kid'', JStr kid), (''kty'', JStr ''RSA''), (''n'', JStr n), (''e'', JStr ''AQAB'')]"

definition no_keys_body :: string where
  \<open>no_keys_body = ''{"keys":[]}''\<close>

definition two_keys_body :: string where
  \<open>two_keys_body =
     ''{"keys":[{"kid":"k1","kty":"RSA","n":"AAAA","e":"AQAB"},{"kid":"k1","kty":"RSA","n":"BBBB","e":"AQAB"}]}''\<close>

definition config_body :: string where
  \<open>config_body = ''{"issuer":"https://idp.example/","jwks_uri":"https://idp.example/jwks"}''\<close>

definition sample_parse :: "string \<Rightarrow> json option" where
  "sample_parse body =
     (if body = no_keys_body then Some (JObj [(''keys'', JArr [])])
      else if body = two_keys_body
        then Some (JObj [(''keys'', JArr [rsa_key ''k1'' ''AAAA'', rsa_key ''k1'' ''BBBB''])])
      else if body = config_body
        then Some (JObj [(''issuer'', JStr ''https://idp.example/''),
                         (''jwks_uri'', JStr ''https://idp.example/jwks'')])
      else if body = ''null'' then Some JNull
      else None)"

definition answers :: "string \<Rightarrow> reply" where
  "answers body = \<lparr> result = Resolves body, latency = 20, resume = 0 \<rparr>"

definition fails_with :: "thrown \<Rightarrow> reply" where
  "fails_with e = \<lparr> result = Rejects e, latency = 20, resume = 0 \<rparr>"

definition sample_client :: "int \<Rightarrow> reply \<Rightarrow> (Jwk list mem_cache) deps" where
  "sample_client ttl r =
     \<lparr> jwksUri = ''https://idp.example/jwks'', cacheTtl = ttl, cache = InMemoryCache,
       httpClient_get = (\<lambda>url n. r), JSON_parse = sample_parse \<rparr>"

definition empty_cache :: "'v mem_cache" where
  "empty_cache = Map.empty"

definition cache_holding :: "string \<Rightarrow> 'v \<Rightarrow> int \<Rightarrow> 'v mem_cache" where
  "cache_holding k v expiry = [k \<mapsto> (v, expiry)]"

definition idle :: "'c \<Rightarrow> int \<Rightarrow> 'c state" where
  "idle c now = \<lparr> store = c, clock = now, fetchingJWKS = None, started = 0, pending = [] \<rparr>"

definition sample_discovery :: "reply \<Rightarrow> (json mem_cache) disc_deps" where
  "sample_discovery r =
     \<lparr> discoveryUrl = ''https://idp.example/.well-known/openid-configuration'',
       disc_cacheTtl = 3600000, disc_cache = InMemoryCache,
       disc_http_get = (\<lambda>url n. r), disc_JSON_parse = sample_parse \<rparr>"

definition disc_idle :: "'c \<Rightarrow> int \<Rightarrow> 'c disc_state" where
  "disc_idle c now = \<lparr> disc_store = c, disc_clock = now, fetchingConfig = None, disc_started = 0 \<rparr>"

definition accept_all :: crypto where
  "accept_all =
     \<lparr> alg_table = (\<lambda>alg. Some (RSA_PKCS1v15, SHA256)), key_family = (\<lambda>pem. Some RSA),
       primitive = (\<lambda>s d pem input sig. True) \<rparr>"

section \<open>Properties of JwksClient\<close>

subsection \<open>Supporting facts\<close>

lemmas refresh_defs = refreshCache_def refreshCache_request_def refreshCache_settle_def
  refreshCache_body_def

lemmas ensure_defs = ensureJWKS_def ensureJWKS_trigger_def ensureJWKS_settle_def
  ensureJWKS_finally_def

lemmas sample_defs = getKey_def getKey_scan_def cached_def ensure_defs refresh_defs
  validateJwks_def jwks_keys_def handleFetchError_def sample_client_def sample_parse_def
  idle_def answers_def fails_with_def InMemoryCache_def cacheKey_def rsa_key_def Let_def
  no_keys_body_def two_keys_body_def config_body_def empty_cache_def cache_holding_def

lemma validateJwks_passes:
  "validateJwks jwks = Inr u \<Longrightarrow> get_property jwks ''keys'' = Inr (Own (JArr (jwks_keys jwks)))"
  apply (cases jwks)
  apply (auto simp: validateJwks_def jwks_keys_def split: sum.splits if_splits option.splits)
  subgoal for fs v by (cases v) auto
  done

text \<open>Every shape but an object with an array under \<^verbatim>\<open>keys\<close>, and but \<^verbatim>\<open>null\<close>, is
  refused with \<^verbatim>\<open>JWKS_INVALID\<close>.\<close>

lemma validateJwks_invalid:
  assumes "jwks \<noteq> JNull" and "\<And>xs. get_property jwks ''keys'' \<noteq> Inr (Own (JArr xs))"
  shows "validateJwks jwks = Inl (ClientError ''JWKS response does not contain keys'' ''JWKS_INVALID'' None)"
proof (cases jwks)
  case (JObj fs)
  show ?thesis
  proof (cases "map_of fs ''keys''")
    case None
    with JObj show ?thesis by (simp add: validateJwks_def)
  next
    case (Some v)
    with JObj assms(2) show ?thesis by (cases v) (auto simp: validateJwks_def)
  qed
qed (use assms in \<open>auto simp: validateJwks_def\<close>)

lemma refreshCache_parse_error:
  assumes "result (httpClient_get D (jwksUri D) (started st)) = Resolves body"
    and "JSON_parse D body = None"
  shows "fst (refreshCache D st) = Inl (ClientError ''Invalid JWKS response format'' ''JWKS_PARSE_ERROR'' None)"
  using assms by (simp add: refresh_defs Let_def handleFetchError_def)

lemma refreshCache_invalid_shape:
  assumes "result (httpClient_get D (jwksUri D) (started st)) = Resolves body"
    and "JSON_parse D body = Some jwks" and "jwks \<noteq> JNull"
    and "\<And>xs. get_property jwks ''keys'' \<noteq> Inr (Own (JArr xs))"
  shows "fst (refreshCache D st) = Inl (ClientError ''JWKS response does not contain keys'' ''JWKS_INVALID'' None)"
  using assms(1,2) validateJwks_invalid[OF assms(3,4)]
  by (simp add: refresh_defs Let_def handleFetchError_def)

lemma ensureJWKS_failure_keeps_cache:
  "ensureJWKS D st = (Inl e, st') \<Longrightarrow> store st' = store st"
  by (auto simp: ensure_defs refresh_defs Let_def
      split: prod.splits sum.splits http_result.splits option.splits)

lemma ensureJWKS_started:
  "started (snd (ensureJWKS D st)) = (if fetchingJWKS st = None then Suc (started st) else started st)"
  by (auto simp: ensure_defs refresh_defs Let_def
      split: prod.splits sum.splits http_result.splits option.splits)

lemma ensureJWKS_marker: "fetchingJWKS (snd (ensureJWKS D st)) = None"
  by (auto simp: ensure_defs refresh_defs Let_def
      split: prod.splits sum.splits http_result.splits option.splits)

lemma getKey_scan_started: "started (snd (getKey_scan D kid jwks st)) \<le> Suc (started st)"
  using ensureJWKS_started[of D st]
  by (auto simp: getKey_scan_def split: prod.splits sum.splits option.splits if_splits)

lemma findKey_first:
  "JNull \<notin> set pre \<Longrightarrow> \<forall>p\<in>set pre. \<not> has_kid p kid \<Longrightarrow> has_kid k kid \<Longrightarrow>
   findKey (pre @ k # post) kid = Inr (Some k)"
proof (induction pre)
  case Nil
  then show ?case by (simp add: has_kid_def)
next
  case (Cons a pre)
  then show ?case by (cases a) (auto simp: has_kid_def split: sum.splits)
qed

lemma findKey_Some:
  "findKey jwks kid = Inr (Some k) \<Longrightarrow>
   \<exists>pre post. jwks = pre @ k # post \<and> has_kid k kid \<and> (\<forall>p\<in>set pre. \<not> has_kid p kid)"
proof (induction jwks)
  case Nil
  then show ?case by simp
next
  case (Cons a jwks)
  show ?case
  proof (cases "has_kid a kid")
    case True
    with Cons.prems have "a = k" by (simp add: has_kid_def)
    with True show ?thesis by (intro exI[of _ "[]"] exI[of _ jwks]) simp
  next
    case False
    with Cons.prems have "findKey jwks kid = Inr (Some k)"
      by (auto simp: has_kid_def split: sum.splits if_splits)
    from Cons.IH[OF this] obtain pre post where
      "jwks = pre @ k # post" "has_kid k kid" "\<forall>p\<in>set pre. \<not> has_kid p kid" by blast
    with False show ?thesis by (intro exI[of _ "a # pre"] exI[of _ post]) simp
  qed
qed

lemma getKey_scan_result:
  assumes "getKey_scan D kid jwks st = (Inr k, st')" and "cached D st = Some jwks"
  shows "\<exists>pre post. cached D st' = Some (pre @ k # post) \<and> has_kid k kid \<and>
           (\<forall>p\<in>set pre. \<not> has_kid p kid)"
  using assms findKey_Some[of _ kid k]
  by (auto simp: getKey_scan_def split: sum.splits option.splits prod.splits)

subsection \<open>One refresh per miss\<close>

text \<open>
  C1, as the code has it. A call of \<^verbatim>\<open>getKey\<close> issues at most two requests, and at
  most one when the cache holds a key set as the call starts. The two come from the two
  call sites of \<^verbatim>\<open>ensureJWKS\<close>: the first on an absent (empty or expired) set, the
  second when \<open>kid\<close> is not in the set at hand, also when that set was fetched a moment
  before.
\<close>

theorem getKey_refresh_bound:
  "started (snd (getKey D kid st)) \<le> started st + 2 \<and>
   (cached D st \<noteq> None \<longrightarrow> started (snd (getKey D kid st)) \<le> started st + 1)"
proof (cases "kid = [] \<or> cached D st \<noteq> None")
  case True
  then show ?thesis
    using getKey_scan_started[of D kid _ st] by (auto simp: getKey_def intro: le_SucI)
next
  case False
  obtain res st1 where e: "ensureJWKS D st = (res, st1)" by (cases "ensureJWKS D st")
  have s1: "started st1 \<le> Suc (started st)"
    using ensureJWKS_started[of D st] e by (simp split: if_splits)
  have "started (snd (getKey_scan D kid jwks st1)) \<le> started st + 2" for jwks
    using getKey_scan_started[of D kid jwks st1] s1 by simp
  with False e s1 show ?thesis
    by (auto simp: getKey_def split: sum.splits option.splits)
qed

theorem getKey_refresh_bound_witness:
  "cached (sample_client 3600000 (answers no_keys_body))
      (idle (cache_holding ''jwks'' [rsa_key ''k0'' ''CCCC''] 5000) 1000) \<noteq> None \<and>
   fst (getKey (sample_client 3600000 (answers no_keys_body)) ''k1''
      (idle (cache_holding ''jwks'' [rsa_key ''k0'' ''CCCC''] 5000) 1000)) =
     Inl (ClientError ''No matching key found for kid k1'' ''JWKS_KEY_NOT_FOUND'' None) \<and>
   started (snd (getKey (sample_client 3600000 (answers no_keys_body)) ''k1''
      (idle (cache_holding ''jwks'' [rsa_key ''k0'' ''CCCC''] 5000) 1000))) \<le> 0 + 1"
proof -
  let ?D = "sample_client 3600000 (answers no_keys_body)"
  let ?st = "idle (cache_holding ''jwks'' [rsa_key ''k0'' ''CCCC''] 5000) 1000"
  have live: "cached ?D ?st \<noteq> None" by (simp add: sample_defs)
  have "started (snd (getKey ?D ''k1'' ?st)) \<le> started ?st + 1"
    by (rule getKey_refresh_bound[of ?D "''k1''" ?st, THEN conjunct2, THEN mp, OF live])
  moreover have "started ?st = 0" by (simp add: idle_def)
  moreover have "fst (getKey ?D ''k1'' ?st) =
      Inl (ClientError ''No matching key found for kid k1'' ''JWKS_KEY_NOT_FOUND'' None)"
    by (simp add: sample_defs)
  ultimately show ?thesis using live by simp
qed

text \<open>
  C1, as the spec states it, fails on an empty cache: the provider's set does not hold
  \<open>k1\<close>, the call fetches it twice and then fails with \<^verbatim>\<open>JWKS_KEY_NOT_FOUND\<close>.
\<close>

theorem getKey_two_refreshes_counterexample:
  "started (idle (empty_cache :: Jwk list mem_cache) 1000) = 0 \<and>
   cached (sample_client 3600000 (answers no_keys_body)) (idle empty_cache 1000) = None \<and>
   fst (getKey (sample_client 3600000 (answers no_keys_body)) ''k1'' (idle empty_cache 1000)) =
     Inl (ClientError ''No matching key found for kid k1'' ''JWKS_KEY_NOT_FOUND'' None) \<and>
   started (snd (getKey (sample_client 3600000 (answers no_keys_body)) ''k1'' (idle empty_cache 1000))) = 2"
  by (simp add: sample_defs)


subsection \<open>Failures of a refresh\<close>

text \<open>
  C3. A \<^verbatim>\<open>refreshCache\<close> that fails, whatever the failure (the transport rejects, the
  body does not parse, the parsed value has no \<^verbatim>\<open>keys\<close> array), leaves the cache as it
  was: \<^verbatim>\<open>cache.set\<close> is the last step and is reached on success only.
\<close>

theorem refreshCache_failure_keeps_cache:
  assumes "refreshCache D st = (Inl e, st')"
  shows "store st' = store st"
  using assms
  by (auto simp: refresh_defs Let_def split: prod.splits sum.splits http_result.splits option.splits)

theorem refreshCache_failure_keeps_cache_witness:
  "fst (refreshCache (sample_client 3600000 (answers ''<html>Bad Gateway</html>''))
          (idle (cache_holding ''jwks'' [rsa_key ''k0'' ''CCCC''] 5000) 1000)) =
     Inl (ClientError ''Invalid JWKS response format'' ''JWKS_PARSE_ERROR'' None) \<and>
   store (snd (refreshCache (sample_client 3600000 (answers ''<html>Bad Gateway</html>''))
          (idle (cache_holding ''jwks'' [rsa_key ''k0'' ''CCCC''] 5000) 1000))) =
     cache_holding ''jwks'' [rsa_key ''k0'' ''CCCC''] 5000"
proof -
  let ?D = "sample_client 3600000 (answers ''<html>Bad Gateway</html>'')"
  let ?st = "idle (cache_holding ''jwks'' [rsa_key ''k0'' ''CCCC''] 5000) 1000"
  have failed: "fst (refreshCache ?D ?st) =
      Inl (ClientError ''Invalid JWKS response format'' ''JWKS_PARSE_ERROR'' None)"
    by (simp add: sample_defs)
  then have "refreshCache ?D ?st =
      (Inl (ClientError ''Invalid JWKS response format'' ''JWKS_PARSE_ERROR'' None),
       snd (refreshCache ?D ?st))"
    by (simp add: prod_eq_iff)
  from refreshCache_failure_keeps_cache[OF this]
  have "store (snd (refreshCache ?D ?st)) = store ?st" .
  with failed show ?thesis by (simp add: idle_def)
qed

text \<open>
  C5, as the code has it. When the transport rejects, \<^verbatim>\<open>refreshCache\<close> rethrows a
  \<^verbatim>\<open>ClientError\<close> unchanged and replaces any other error by a new
  \<^verbatim>\<open>ClientError\<close> with the code \<^verbatim>\<open>JWKS_FETCH_ERROR\<close>. The new error is built from
  a message and a code only: the cause is logged and not attached to it.
\<close>

theorem refreshCache_transport_failure:
  assumes "result (httpClient_get D (jwksUri D) (started st)) = Rejects e"
  shows "fst (refreshCache D st) =
           Inl (if instanceof_ClientError e then e
                else ClientError ''Failed to fetch JWKS'' ''JWKS_FETCH_ERROR'' None)"
  using assms by (simp add: refresh_defs Let_def handleFetchError_def)

theorem refreshCache_transport_failure_witness:
  "fst (refreshCache
          (sample_client 3600000 (fails_with (ClientError ''Request timed out'' ''HTTP_TIMEOUT'' None)))
          (idle empty_cache 1000)) =
     Inl (ClientError ''Request timed out'' ''HTTP_TIMEOUT'' None)"
proof -
  let ?e = "ClientError ''Request timed out'' ''HTTP_TIMEOUT'' None"
  let ?D = "sample_client 3600000 (fails_with ?e)"
  let ?st = "idle (empty_cache :: Jwk list mem_cache) 1000"
  have "result (httpClient_get ?D (jwksUri ?D) (started ?st)) = Rejects ?e"
    by (simp add: sample_client_def fails_with_def)
  from refreshCache_transport_failure[OF this] show ?thesis by simp
qed

text \<open>
  C5, as the spec states it, fails where it says the new error wraps the cause: after a
  connection reset the error thrown carries the code and no original error.
\<close>

theorem refreshCache_cause_not_wrapped_counterexample:
  "result (httpClient_get (sample_client 3600000 (fails_with (OtherError ''ECONNRESET'')))
             ''https://idp.example/jwks'' 0) = Rejects (OtherError ''ECONNRESET'') \<and>
   fst (refreshCache (sample_client 3600000 (fails_with (OtherError ''ECONNRESET'')))
          (idle empty_cache 1000)) =
     Inl (ClientError ''Failed to fetch JWKS'' ''JWKS_FETCH_ERROR'' None) \<and>
   originalError (ClientError ''Failed to fetch JWKS'' ''JWKS_FETCH_ERROR'' None) \<noteq>
     Some (OtherError ''ECONNRESET'')"
  by (simp add: sample_defs)

text \<open>
  C6 at the body \<^verbatim>\<open>null\<close>. It parses, it has no \<^verbatim>\<open>keys\<close> array, and the refresh
  fails with \<^verbatim>\<open>JWKS_FETCH_ERROR\<close>, not \<^verbatim>\<open>JWKS_INVALID\<close>: \<^verbatim>\<open>validateJwks\<close> reads
  \<^verbatim>\<open>jwks.keys\<close> of \<^verbatim>\<open>null\<close>, the \<^verbatim>\<open>TypeError\<close> is not a \<^verbatim>\<open>ClientError\<close>, and
  \<^verbatim>\<open>handleFetchError\<close> replaces it. For every other shape the claim holds (lemmas
  \<open>refreshCache_parse_error\<close> and \<open>refreshCache_invalid_shape\<close>).
\<close>

theorem refreshCache_null_body:
  "JSON_parse (sample_client 3600000 (answers ''null'')) ''null'' = Some JNull \<and>
   fst (refreshCache (sample_client 3600000 (answers ''null'')) (idle empty_cache 1000)) =
     Inl (ClientError ''Failed to fetch JWKS'' ''JWKS_FETCH_ERROR'' None)"
  by (simp add: sample_defs)

subsection \<open>A successful refresh\<close>

text \<open>
  C7. A \<^verbatim>\<open>refreshCache\<close> that succeeds has received a body that parses to a value
  whose \<^verbatim>\<open>keys\<close> is an array, and has called \<^verbatim>\<open>cache.set\<close> once, with the cache key
  \<^verbatim>\<open>jwks\<close>, exactly that array and the configured TTL. Nothing of the old set is read
  or passed on.
\<close>

theorem refreshCache_success_overwrites:
  assumes "refreshCache D st = (Inr u, st')"
  shows "\<exists>body jwks ks.
           result (httpClient_get D (jwksUri D) (started st)) = Resolves body \<and>
           JSON_parse D body = Some jwks \<and>
           get_property jwks ''keys'' = Inr (Own (JArr ks)) \<and>
           store st' = cache_set (cache D) (store st)
                         (clock st + int (latency (httpClient_get D (jwksUri D) (started st))))
                         ''jwks'' ks (cacheTtl D)"
  using assms
  by (auto simp: refresh_defs Let_def cacheKey_def dest: validateJwks_passes
      split: prod.splits sum.splits http_result.splits option.splits)

theorem refreshCache_success_overwrites_witness:
  "fst (refreshCache (sample_client 3600000 (answers two_keys_body))
          (idle (cache_holding ''jwks'' [rsa_key ''k0'' ''CCCC''] 5000) 1000)) = Inr () \<and>
   store (snd (refreshCache (sample_client 3600000 (answers two_keys_body))
          (idle (cache_holding ''jwks'' [rsa_key ''k0'' ''CCCC''] 5000) 1000))) =
     cache_holding ''jwks'' [rsa_key ''k1'' ''AAAA'', rsa_key ''k1'' ''BBBB''] 3601020"
proof -
  let ?D = "sample_client 3600000 (answers two_keys_body)"
  let ?st = "idle (cache_holding ''jwks'' [rsa_key ''k0'' ''CCCC''] 5000) 1000"
  have ok: "fst (refreshCache ?D ?st) = Inr ()" by (simp add: sample_defs)
  then have "refreshCache ?D ?st = (Inr (), snd (refreshCache ?D ?st))"
    by (simp add: prod_eq_iff)
  from refreshCache_success_overwrites[OF this] obtain body jwks ks where
    b: "result (httpClient_get ?D (jwksUri ?D) (started ?st)) = Resolves body"
    and j: "JSON_parse ?D body = Some jwks"
    and k: "get_property jwks ''keys'' = Inr (Own (JArr ks))"
    and s: "store (snd (refreshCache ?D ?st)) =
              cache_set (cache ?D) (store ?st)
                (clock ?st + int (latency (httpClient_get ?D (jwksUri ?D) (started ?st))))
                ''jwks'' ks (cacheTtl ?D)"
    by blast
  from b have "body = two_keys_body" by (simp add: sample_client_def answers_def)
  with j have "jwks = JObj [(''keys'', JArr [rsa_key ''k1'' ''AAAA'', rsa_key ''k1'' ''BBBB''])]"
    by (simp add: sample_client_def sample_parse_def no_keys_body_def two_keys_body_def)
  with k have "ks = [rsa_key ''k1'' ''AAAA'', rsa_key ''k1'' ''BBBB'']" by simp
  with s have "store (snd (refreshCache ?D ?st)) =
      cache_holding ''jwks'' [rsa_key ''k1'' ''AAAA'', rsa_key ''k1'' ''BBBB''] 3601020"
    by (simp add: sample_client_def answers_def idle_def InMemoryCache_def cache_holding_def)
  with ok show ?thesis by simp
qed

subsection \<open>Lookup by key identifier\<close>

text \<open>
  C8. Key identifiers need not be unique. When the cached set holds an entry with the
  identifier asked for, \<^verbatim>\<open>getKey\<close> returns the first such entry in the order of the
  set, whatever follows it, and changes nothing (the entries before it are entries, not
  \<^verbatim>\<open>null\<close>). And every key \<^verbatim>\<open>getKey\<close> returns, on any path, is the first entry
  with that identifier in the set the cache holds when it returns.
\<close>

theorem getKey_first_match:
  "(kid \<noteq> [] \<and> cached D st = Some (pre @ k # post) \<and> JNull \<notin> set pre \<and>
      (\<forall>p\<in>set pre. \<not> has_kid p kid) \<and> has_kid k kid
      \<longrightarrow> getKey D kid st = (Inr k, st)) \<and>
   (getKey D kid st = (Inr k', st')
      \<longrightarrow> (\<exists>pre' post'. cached D st' = Some (pre' @ k' # post') \<and> has_kid k' kid \<and>
             (\<forall>p\<in>set pre'. \<not> has_kid p kid)))"
proof (intro conjI impI)
  assume "kid \<noteq> [] \<and> cached D st = Some (pre @ k # post) \<and> JNull \<notin> set pre \<and>
      (\<forall>p\<in>set pre. \<not> has_kid p kid) \<and> has_kid k kid"
  then show "getKey D kid st = (Inr k, st)"
    using findKey_first[of pre kid k post] by (simp add: getKey_def getKey_scan_def)
next
  assume "getKey D kid st = (Inr k', st')"
  then show "\<exists>pre' post'. cached D st' = Some (pre' @ k' # post') \<and> has_kid k' kid \<and>
             (\<forall>p\<in>set pre'. \<not> has_kid p kid)"
    using getKey_scan_result[of D kid _ _ k' st']
    by (auto simp: getKey_def split: sum.splits option.splits prod.splits if_splits)
qed

theorem getKey_first_match_witness:
  "getKey (sample_client 3600000 (answers no_keys_body)) ''k1''
     (idle (cache_holding ''jwks''
              [rsa_key ''k0'' ''CCCC'', rsa_key ''k1'' ''AAAA'', rsa_key ''k1'' ''BBBB''] 5000) 1000) =
   (Inr (rsa_key ''k1'' ''AAAA''),
    idle (cache_holding ''jwks''
              [rsa_key ''k0'' ''CCCC'', rsa_key ''k1'' ''AAAA'', rsa_key ''k1'' ''BBBB''] 5000) 1000)"
proof -
  let ?D = "sample_client 3600000 (answers no_keys_body)"
  let ?st = "idle (cache_holding ''jwks''
              [rsa_key ''k0'' ''CCCC'', rsa_key ''k1'' ''AAAA'', rsa_key ''k1'' ''BBBB''] 5000) 1000"
  have "''k1'' \<noteq> [] \<and>
        cached ?D ?st = Some ([rsa_key ''k0'' ''CCCC''] @ rsa_key ''k1'' ''AAAA'' # [rsa_key ''k1'' ''BBBB'']) \<and>
        JNull \<notin> set [rsa_key ''k0'' ''CCCC''] \<and>
        (\<forall>p\<in>set [rsa_key ''k0'' ''CCCC'']. \<not> has_kid p ''k1'') \<and>
        has_kid (rsa_key ''k1'' ''AAAA'') ''k1''"
    by (simp add: sample_defs has_kid_def)
  from getKey_first_match[THEN conjunct1, THEN mp, OF this] show ?thesis .
qed

text \<open>
  C10. When the first read of the cache finds no key set, the refresh succeeds and the
  read after it still finds none, \<^verbatim>\<open>getKey\<close> fails with \<^verbatim>\<open>JWKS_FETCH_ERROR\<close> and
  the message of line 87, not with \<^verbatim>\<open>JWKS_KEY_NOT_FOUND\<close>.
\<close>

theorem getKey_empty_after_refresh:
  assumes "kid \<noteq> []" and "cached D st = None"
    and "ensureJWKS D st = (Inr u, st1)" and "cached D st1 = None"
  shows "getKey D kid st =
           (Inl (ClientError ''JWKS cache is empty after refresh'' ''JWKS_FETCH_ERROR'' None), st1)"
  using assms by (simp add: getKey_def)

theorem getKey_empty_after_refresh_witness:
  "fst (ensureJWKS (sample_client 0 (answers two_keys_body \<lparr>resume := 1\<rparr>)) (idle empty_cache 1000)) = Inr () \<and>
   fst (getKey (sample_client 0 (answers two_keys_body \<lparr>resume := 1\<rparr>)) ''k1'' (idle empty_cache 1000)) =
     Inl (ClientError ''JWKS cache is empty after refresh'' ''JWKS_FETCH_ERROR'' None)"
proof -
  let ?D = "sample_client 0 (answers two_keys_body \<lparr>resume := 1\<rparr>)"
  let ?st = "idle (empty_cache :: Jwk list mem_cache) 1000"
  let ?st1 = "snd (ensureJWKS ?D ?st)"
  have k: "''k1'' \<noteq> []" by simp
  have c: "cached ?D ?st = None" by (simp add: sample_defs)
  have r: "fst (ensureJWKS ?D ?st) = Inr ()" by (simp add: sample_defs)
  then have e: "ensureJWKS ?D ?st = (Inr (), ?st1)" by (simp add: prod_eq_iff)
  have c1: "cached ?D ?st1 = None" by (simp add: sample_defs)
  from getKey_empty_after_refresh[OF k c e c1] r show ?thesis by simp
qed


subsection \<open>Single flight\<close>

lemma refreshCache_settle_marker:
  "fetchingJWKS (snd (refreshCache_settle D p st)) = fetchingJWKS st"
  by (auto simp: refreshCache_settle_def refreshCache_body_def Let_def
      split: prod.splits sum.splits http_result.splits option.splits)

lemma refreshCache_settle_pending:
  "pending (snd (refreshCache_settle D p st)) = removeAll p (pending st)"
  by (auto simp: refreshCache_settle_def refreshCache_body_def Let_def
      split: prod.splits sum.splits http_result.splits option.splits)

lemma refreshCache_settle_started:
  "started (snd (refreshCache_settle D p st)) = started st"
  by (auto simp: refreshCache_settle_def refreshCache_body_def Let_def
      split: prod.splits sum.splits http_result.splits option.splits)

lemma trigger_idle:
  "fetchingJWKS st = None \<Longrightarrow>
   ensureJWKS_trigger st =
     (started st, st\<lparr>started := Suc (started st), pending := pending st @ [started st],
                     fetchingJWKS := Some (started st)\<rparr>)"
  by (simp add: ensureJWKS_trigger_def refreshCache_request_def)

lemma trigger_busy:
  "fetchingJWKS st = Some p \<Longrightarrow> ensureJWKS_trigger st = (p, st)"
  by (simp add: ensureJWKS_trigger_def)

lemma single_flight_step:
  assumes "single_flight st" and "e \<noteq> Direct"
  shows "single_flight (step D e st)"
proof (cases e)
  case Trigger
  with assms show ?thesis
    by (cases "fetchingJWKS st") (auto simp: single_flight_def trigger_idle trigger_busy)
next
  case Respond
  with assms show ?thesis
    by (auto simp: single_flight_def refreshCache_settle_pending split: option.splits)
next
  case Finally
  with assms show ?thesis
    by (auto simp: single_flight_def ensureJWKS_finally_def split: option.splits)
next
  case Direct
  with assms show ?thesis by simp
next
  case (DirectRespond p)
  with assms show ?thesis by (auto simp: single_flight_def)
qed

lemma single_flight_run:
  "single_flight st \<Longrightarrow> Direct \<notin> set es \<Longrightarrow> single_flight (run D es st)"
proof (induction es arbitrary: st)
  case Nil
  then show ?case by simp
next
  case (Cons e es)
  from Cons.prems have "e \<noteq> Direct" and rest: "Direct \<notin> set es" by auto
  with Cons.prems(1) have "single_flight (step D e st)" by (simp add: single_flight_step)
  from Cons.IH[OF this rest] show ?case by simp
qed

lemma run_triggers_busy:
  "fetchingJWKS st = Some p \<Longrightarrow> run D (replicate n Trigger) st = st"
  by (induction n) (simp_all add: trigger_busy)

lemma run_triggers: "run D (replicate (Suc n) Trigger) st = step D Trigger st"
proof (cases "fetchingJWKS st")
  case None
  then have "fetchingJWKS (step D Trigger st) = Some (started st)"
    by (simp add: trigger_idle)
  then show ?thesis using run_triggers_busy[of "step D Trigger st" _ D n] by simp
next
  case (Some p)
  then show ?thesis using run_triggers_busy[of "step D Trigger st" p D n] by (simp add: trigger_busy)
qed

lemma awaited_after_trigger: "awaited (step D Trigger st) = awaited st"
  by (cases "fetchingJWKS st") (simp_all add: awaited_def trigger_idle trigger_busy)

lemma awaited_after_triggers: "awaited (run D (replicate i Trigger) st) = awaited st"
proof (cases i)
  case 0
  then show ?thesis by simp
next
  case (Suc k)
  show ?thesis unfolding Suc run_triggers by (rule awaited_after_trigger)
qed

lemma started_after_trigger:
  "started (step D Trigger st) = (if fetchingJWKS st = None then Suc (started st) else started st)"
  by (cases "fetchingJWKS st") (simp_all add: trigger_idle trigger_busy)

lemma started_after_triggers: "started (run D (replicate n Trigger) st) \<le> Suc (started st)"
proof (cases n)
  case 0
  then show ?thesis by simp
next
  case (Suc k)
  show ?thesis unfolding Suc run_triggers
    using started_after_trigger[of D st] by (simp split: if_splits)
qed

lemma completion:
  assumes "single_flight st" and "fetchingJWKS st = Some p"
  shows "fetchingJWKS (run D [Respond, Finally] st) = None"
    and "pending (run D [Respond, Finally] st) = []"
    and "started (run D [Respond, Finally] st) = started st"
  using assms
  by (auto simp: single_flight_def refreshCache_settle_pending refreshCache_settle_marker
        refreshCache_settle_started ensureJWKS_finally_def)

text \<open>
  C2, as the code has it. Take a client as constructed and any interleaving \<open>es\<close> in
  which every refresh goes through \<^verbatim>\<open>ensureJWKS\<close>, as the two call sites of
  \<^verbatim>\<open>getKey\<close> do: no direct call of \<^verbatim>\<open>refreshCache\<close>. In the state reached: at
  most one request is in flight; any number of callers that trigger next, with no
  completion in between, await one and the same promise, and together issue at most one
  request; and when a promise is pending, its completion, whatever the reply (success or
  failure), clears the marker and leaves nothing in flight, so that the next trigger
  issues a new request.
\<close>

theorem ensureJWKS_single_flight:
  assumes "constructed st0" and "Direct \<notin> set es" and "st = run D es st0"
  shows "length (pending st) \<le> 1 \<and>
         (\<forall>i. awaited (run D (replicate i Trigger) st) = awaited st) \<and>
         started (run D (replicate n Trigger) st) \<le> Suc (started st) \<and>
         (fetchingJWKS st \<noteq> None \<longrightarrow>
            fetchingJWKS (run D [Respond, Finally] st) = None \<and>
            pending (run D [Respond, Finally] st) = [] \<and>
            started (run D [Respond, Finally, Trigger] st) = Suc (started st) \<and>
            pending (run D [Respond, Finally, Trigger] st) = [started st])"
proof -
  have "single_flight st0"
    using assms(1) by (simp add: constructed_def single_flight_def)
  then have sf: "single_flight st"
    unfolding assms(3) using assms(2) by (rule single_flight_run)
  then have a: "length (pending st) \<le> 1" by (auto simp: single_flight_def)
  have b: "\<forall>i. awaited (run D (replicate i Trigger) st) = awaited st"
    by (simp add: awaited_after_triggers)
  have c: "started (run D (replicate n Trigger) st) \<le> Suc (started st)"
    by (rule started_after_triggers)
  have d: "fetchingJWKS (run D [Respond, Finally] st) = None \<and>
           pending (run D [Respond, Finally] st) = [] \<and>
           started (run D [Respond, Finally, Trigger] st) = Suc (started st) \<and>
           pending (run D [Respond, Finally, Trigger] st) = [started st]"
    if "fetchingJWKS st \<noteq> None"
  proof -
    from that obtain p where p: "fetchingJWKS st = Some p" by auto
    let ?s = "run D [Respond, Finally] st"
    note completion[OF sf p, of D]
    moreover have "run D [Respond, Finally, Trigger] st = step D Trigger ?s" by simp
    ultimately show ?thesis by (simp only: trigger_idle step.simps snd_conv) simp
  qed
  from a b c d show ?thesis by blast
qed

theorem ensureJWKS_single_flight_witness:
  "constructed (idle (empty_cache :: Jwk list mem_cache) 1000) \<and>
   Direct \<notin> set [Trigger, Trigger, DirectRespond 0, Trigger] \<and>
   fetchingJWKS (run (sample_client 3600000 (fails_with (OtherError ''ECONNRESET'')))
                   [Trigger, Trigger, DirectRespond 0, Trigger] (idle empty_cache 1000)) = Some 0 \<and>
   length (pending (run (sample_client 3600000 (fails_with (OtherError ''ECONNRESET'')))
                   [Trigger, Trigger, DirectRespond 0, Trigger] (idle empty_cache 1000))) \<le> 1 \<and>
   fetchingJWKS (run (sample_client 3600000 (fails_with (OtherError ''ECONNRESET''))) [Respond, Finally]
                  (run (sample_client 3600000 (fails_with (OtherError ''ECONNRESET'')))
                     [Trigger, Trigger, DirectRespond 0, Trigger] (idle empty_cache 1000))) = None \<and>
   started (run (sample_client 3600000 (fails_with (OtherError ''ECONNRESET''))) [Respond, Finally, Trigger]
                  (run (sample_client 3600000 (fails_with (OtherError ''ECONNRESET'')))
                     [Trigger, Trigger, DirectRespond 0, Trigger] (idle empty_cache 1000))) = 2"
proof -
  let ?D = "sample_client 3600000 (fails_with (OtherError ''ECONNRESET''))"
  let ?init = "idle (empty_cache :: Jwk list mem_cache) 1000"
  let ?es = "[Trigger, Trigger, DirectRespond 0, Trigger]"
  let ?reached = "run ?D ?es ?init"
  have c: "constructed ?init" by (simp add: constructed_def idle_def)
  have n: "Direct \<notin> set ?es" by simp
  have m: "fetchingJWKS ?reached = Some 0"
    by (simp add: ensureJWKS_trigger_def refreshCache_request_def idle_def)
  have s: "started ?reached = 1"
    by (simp add: ensureJWKS_trigger_def refreshCache_request_def idle_def)
  note t = ensureJWKS_single_flight[OF c n refl, of ?D 0]
  from t have "length (pending ?reached) \<le> 1" by (rule conjunct1)
  moreover from t m have "fetchingJWKS (run ?D [Respond, Finally] ?reached) = None \<and>
      started (run ?D [Respond, Finally, Trigger] ?reached) = Suc (started ?reached)"
    by (simp del: run.simps step.simps)
  ultimately show ?thesis using c n m s by (simp del: run.simps step.simps)
qed

text \<open>
  C2, as the spec states it for the whole client, fails: \<^verbatim>\<open>refreshCache\<close> is a public
  method, and a direct call while the promise of \<^verbatim>\<open>ensureJWKS\<close> is pending issues
  a second request. After one trigger and one direct call the marker names request 0
  and requests 0 and 1 are both in flight.
\<close>

theorem refreshCache_direct_call_counterexample:
  "constructed (idle (empty_cache :: Jwk list mem_cache) 1000) \<and>
   fetchingJWKS (run (sample_client 3600000 (answers no_keys_body)) [Trigger, Direct]
                   (idle empty_cache 1000)) = Some 0 \<and>
   pending (run (sample_client 3600000 (answers no_keys_body)) [Trigger, Direct]
              (idle empty_cache 1000)) = [0, 1] \<and>
   started (run (sample_client 3600000 (answers no_keys_body)) [Trigger, Direct]
              (idle empty_cache 1000)) = 2"
  by (simp add: constructed_def idle_def ensureJWKS_trigger_def refreshCache_request_def)

section \<open>Properties of DiscoveryClient\<close>

lemmas discovery_defs = getDiscoveryConfig_def coalescedFetch_def fetchDiscoveryConfig_def
  nonempty_string_field_def disc_cacheKey_def sample_discovery_def disc_idle_def Let_def

text \<open>
  C9. With no fetch pending, \<^verbatim>\<open>getDiscoveryConfig(true)\<close> issues a request, whatever
  the cache holds; its outcome is the same for every answer \<open>g\<close> the cache could give
  to a lookup, so the cache is not consulted; and when it succeeds, the document it
  returns is the parsed body of the reply, written to the cache under
  \<^verbatim>\<open>discoveryConfig\<close> with the configured TTL.
\<close>

theorem getDiscoveryConfig_force_fetches:
  assumes "fetchingConfig st = None"
  shows "disc_started (snd (getDiscoveryConfig D True st)) = Suc (disc_started st) \<and>
         getDiscoveryConfig (D\<lparr>disc_cache := (disc_cache D)\<lparr>cache_get := g\<rparr>\<rparr>) True st =
           getDiscoveryConfig D True st \<and>
         (\<forall>cfg st'. getDiscoveryConfig D True st = (Inr cfg, st') \<longrightarrow>
            (\<exists>body. result (disc_http_get D (discoveryUrl D) (disc_started st)) = Resolves body \<and>
                    disc_JSON_parse D body = Some cfg) \<and>
            disc_store st' =
              cache_set (disc_cache D) (disc_store st)
                (disc_clock st + int (latency (disc_http_get D (discoveryUrl D) (disc_started st))))
                ''discoveryConfig'' cfg (disc_cacheTtl D))"
proof (intro conjI allI impI)
  show "disc_started (snd (getDiscoveryConfig D True st)) = Suc (disc_started st)"
    using assms
    by (auto simp: getDiscoveryConfig_def coalescedFetch_def fetchDiscoveryConfig_def Let_def
        split: prod.splits http_result.splits option.splits)
next
  show "getDiscoveryConfig (D\<lparr>disc_cache := (disc_cache D)\<lparr>cache_get := g\<rparr>\<rparr>) True st =
          getDiscoveryConfig D True st"
    by (auto simp: getDiscoveryConfig_def coalescedFetch_def fetchDiscoveryConfig_def Let_def
        split: prod.splits http_result.splits option.splits)
next
  fix cfg st'
  assume ok: "getDiscoveryConfig D True st = (Inr cfg, st')"
  then show "\<exists>body. result (disc_http_get D (discoveryUrl D) (disc_started st)) = Resolves body \<and>
                    disc_JSON_parse D body = Some cfg"
    using assms
    by (auto simp: getDiscoveryConfig_def coalescedFetch_def fetchDiscoveryConfig_def Let_def
        split: prod.splits http_result.splits option.splits if_splits)
  from ok show "disc_store st' =
      cache_set (disc_cache D) (disc_store st)
        (disc_clock st + int (latency (disc_http_get D (discoveryUrl D) (disc_started st))))
        ''discoveryConfig'' cfg (disc_cacheTtl D)"
    using assms
    by (auto simp: getDiscoveryConfig_def coalescedFetch_def fetchDiscoveryConfig_def Let_def
        disc_cacheKey_def split: prod.splits http_result.splits option.splits if_splits)
qed

theorem getDiscoveryConfig_force_fetches_witness:
  "cache_get InMemoryCache (cache_holding ''discoveryConfig'' (JObj [(''issuer'', JStr ''https://old.example/''),
        (''jwks_uri'', JStr ''https://old.example/jwks'')]) 5000) 1000 ''discoveryConfig'' \<noteq> None \<and>
   disc_started (snd (getDiscoveryConfig (sample_discovery (answers config_body)) True
     (disc_idle (cache_holding ''discoveryConfig'' (JObj [(''issuer'', JStr ''https://old.example/''),
        (''jwks_uri'', JStr ''https://old.example/jwks'')]) 5000) 1000))) = 1 \<and>
   fst (getDiscoveryConfig (sample_discovery (answers config_body)) True
     (disc_idle (cache_holding ''discoveryConfig'' (JObj [(''issuer'', JStr ''https://old.example/''),
        (''jwks_uri'', JStr ''https://old.example/jwks'')]) 5000) 1000)) =
     Inr (JObj [(''issuer'', JStr ''https://idp.example/''), (''jwks_uri'', JStr ''https://idp.example/jwks'')])"
proof -
  let ?D = "sample_discovery (answers config_body)"
  let ?old = "JObj [(''issuer'', JStr ''https://old.example/''), (''jwks_uri'', JStr ''https://old.example/jwks'')]"
  let ?s = "disc_idle (cache_holding ''discoveryConfig'' ?old 5000) 1000"
  have idle: "fetchingConfig ?s = None" by (simp add: disc_idle_def)
  have "disc_started (snd (getDiscoveryConfig ?D True ?s)) = Suc (disc_started ?s)"
    by (rule getDiscoveryConfig_force_fetches[OF idle, THEN conjunct1])
  moreover have "disc_started ?s = 0" by (simp add: disc_idle_def)
  moreover have "fst (getDiscoveryConfig ?D True ?s) =
      Inr (JObj [(''issuer'', JStr ''https://idp.example/''), (''jwks_uri'', JStr ''https://idp.example/jwks'')])"
    by (simp add: discovery_defs answers_def sample_parse_def no_keys_body_def two_keys_body_def
        config_body_def)
  moreover have "cache_get InMemoryCache (cache_holding ''discoveryConfig'' ?old 5000) 1000
      ''discoveryConfig'' \<noteq> None"
    by (simp add: InMemoryCache_def cache_holding_def)
  ultimately show ?thesis by simp
qed

section \<open>Properties of SignatureVerifier\<close>

text \<open>
  C4. \<^verbatim>\<open>verify\<close> rejects whenever \<open>alg\<close> is \<^verbatim>\<open>none\<close> or is not in the allow-list,
  whatever the signing input, the signature, the key and the primitive are.
\<close>

theorem verify_rejects_disallowed_alg:
  assumes "alg = ''none'' \<or> alg \<notin> allowedAlgs"
  shows "\<not> verify K signingInput signature alg publicKeyPem allowedAlgs"
  using assms by (auto simp: verify_def)

theorem verify_rejects_disallowed_alg_witness:
  "\<not> verify accept_all ''header.payload'' [] ''none'' ''-----BEGIN PUBLIC KEY-----'' {''none'', ''RS256''} \<and>
   \<not> verify accept_all ''header.payload'' ''sig'' ''HS256'' ''-----BEGIN PUBLIC KEY-----'' {''RS256''} \<and>
   verify accept_all ''header.payload'' ''sig'' ''RS256'' ''-----BEGIN PUBLIC KEY-----'' {''RS256''}"
proof -
  have "\<not> verify accept_all ''header.payload'' [] ''none'' ''-----BEGIN PUBLIC KEY-----'' {''none'', ''RS256''}"
    by (rule verify_rejects_disallowed_alg) simp
  moreover have "\<not> verify accept_all ''header.payload'' ''sig'' ''HS256'' ''-----BEGIN PUBLIC KEY-----'' {''RS256''}"
    by (rule verify_rejects_disallowed_alg) simp
  moreover have "verify accept_all ''header.payload'' ''sig'' ''RS256'' ''-----BEGIN PUBLIC KEY-----'' {''RS256''}"
    by (simp add: verify_def accept_all_def)
  ultimately show ?thesis by simp
qed


end
